theory Spec2Isabelle
  imports Complex_Main
begin

section \<open>Go strings\<close>

text \<open>
  A Go string is a sequence of bytes, here a \<^typ>\<open>string\<close> (a list of 8-bit
  characters); \<open>len\<close> is \<^const>\<open>length\<close> and \<open>s[i:]\<close> is \<^const>\<open>drop\<close>.
  The functions of package \<open>strings\<close> that the moderation code calls are written out
  below. \<open>ToLower\<close> and \<open>TrimSpace\<close> are given on bytes: the letters \<open>A\<close> to \<open>Z\<close> are
  lowered and the six ASCII white-space bytes are trimmed, which is what Go computes on
  ASCII text; bytes from \<open>0x80\<close> on are kept as they are (Go's Unicode case mapping and
  Unicode white space are outside this development).
\<close>

definition HasPrefix :: "string \<Rightarrow> string \<Rightarrow> bool" where
  "HasPrefix s p = (take (length p) s = p)"

definition HasSuffix :: "string \<Rightarrow> string \<Rightarrow> bool" where
  "HasSuffix s x = (length x \<le> length s \<and> drop (length s - length x) s = x)"

definition TrimPrefix :: "string \<Rightarrow> string \<Rightarrow> string" where
  "TrimPrefix s p = (if HasPrefix s p then drop (length p) s else s)"

definition TrimSuffix :: "string \<Rightarrow> string \<Rightarrow> string" where
  "TrimSuffix s x = (if HasSuffix s x then take (length s - length x) s else s)"

text \<open>\<open>strings.Index\<close>: the first position where \<open>t\<close> starts in \<open>s\<close>; Go's \<open>-1\<close> is \<open>None\<close>.\<close>

fun Index :: "string \<Rightarrow> string \<Rightarrow> nat option" where
  "Index [] t = (if t = [] then Some 0 else None)"
| "Index (c # cs) t =
     (if HasPrefix (c # cs) t then Some 0 else map_option Suc (Index cs t))"

definition Contains :: "string \<Rightarrow> string \<Rightarrow> bool" where
  "Contains s t = (Index s t \<noteq> None)"

definition lower_byte :: "char \<Rightarrow> char" where
  "lower_byte c =
     (let n = (of_char c :: nat) in if 65 \<le> n \<and> n \<le> 90 then char_of (n + 32) else c)"

definition ToLower :: "string \<Rightarrow> string" where
  "ToLower s = map lower_byte s"

definition asciiSpace :: "char \<Rightarrow> bool" where
  "asciiSpace c = ((of_char c :: nat) \<in> {9, 10, 11, 12, 13, 32})"

definition TrimSpace :: "string \<Rightarrow> string" where
  "TrimSpace s = rev (dropWhile asciiSpace (rev (dropWhile asciiSpace s)))"

text \<open>\<open>strings.ReplaceAll\<close> for a one-byte pattern and a one-byte replacement.\<close>

definition ReplaceAll :: "string \<Rightarrow> char \<Rightarrow> char \<Rightarrow> string" where
  "ReplaceAll s old new = map (\<lambda>c. if c = old then new else c) s"

text \<open>\<open>strings.Split\<close> at a one-byte separator: always at least one piece.\<close>

fun Split :: "string \<Rightarrow> char \<Rightarrow> string list" where
  "Split [] sep = [[]]"
| "Split (c # cs) sep =
     (if c = sep then [] # Split cs sep
      else (case Split cs sep of p # ps \<Rightarrow> (c # p) # ps | [] \<Rightarrow> [[c]]))"

section \<open>The term matcher (groq/blocked\_terms.go)\<close>

definition isAlphanumeric :: "char \<Rightarrow> bool" where
  "isAlphanumeric b =
     (let n = (of_char b :: nat)
      in (97 \<le> n \<and> n \<le> 122) \<or> (65 \<le> n \<and> n \<le> 90) \<or> (48 \<le> n \<and> n \<le> 57))"

text \<open>
  The loop of \<open>isWholeWord\<close>, started at \<open>index\<close>. Slicing \<open>message[index:]\<close> panics in
  Go when \<open>index\<close> exceeds the length; that is the result \<open>None\<close>. The two byte reads
  are guarded as in the source, so they stay in range.
\<close>

function isWholeWord_from :: "string \<Rightarrow> string \<Rightarrow> nat \<Rightarrow> bool option" where
  "isWholeWord_from message term index =
     (if length message < index then None
      else (case Index (drop index message) term of
              None \<Rightarrow> Some False
            | Some pos \<Rightarrow>
                (let actualPos = index + pos;
                     beforeOK = (actualPos = 0 \<or>
                                 (0 < actualPos \<and> \<not> isAlphanumeric (message ! (actualPos - 1))));
                     afterPos = actualPos + length term;
                     afterOK = (length message \<le> afterPos \<or>
                                \<not> isAlphanumeric (message ! afterPos))
                 in if beforeOK \<and> afterOK then Some True
                    else isWholeWord_from message term (actualPos + 1))))"
  by pat_completeness auto
termination
  by (relation "measure (\<lambda>(message, term, index). Suc (length message) - index)") auto

definition isWholeWord :: "string \<Rightarrow> string \<Rightarrow> bool option" where
  "isWholeWord message term = isWholeWord_from message term 0"

text \<open>
  The loop over the blocked terms. Go's \<open>||\<close> is short-circuit: the second
  \<open>isWholeWord\<close> runs only when the first returned false. A panic of \<open>isWholeWord\<close>
  is passed on as \<open>None\<close>.
\<close>

fun containsBlockedTerm_loop :: "string \<Rightarrow> string \<Rightarrow> string list \<Rightarrow> (bool \<times> string) option" where
  "containsBlockedTerm_loop messageLower normalizedMessage [] = Some (False, [])"
| "containsBlockedTerm_loop messageLower normalizedMessage (term # rest) =
     (let termLower = ToLower (TrimSpace term)
      in if termLower = [] then containsBlockedTerm_loop messageLower normalizedMessage rest
         else if Contains messageLower termLower \<or> Contains normalizedMessage termLower
         then (case isWholeWord messageLower termLower of
                 None \<Rightarrow> None
               | Some True \<Rightarrow> Some (True, termLower)
               | Some False \<Rightarrow>
                   (case isWholeWord normalizedMessage termLower of
                      None \<Rightarrow> None
                    | Some True \<Rightarrow> Some (True, termLower)
                    | Some False \<Rightarrow>
                        containsBlockedTerm_loop messageLower normalizedMessage rest))
         else containsBlockedTerm_loop messageLower normalizedMessage rest)"

definition containsBlockedTerm :: "string \<Rightarrow> string list \<Rightarrow> (bool \<times> string) option" where
  "containsBlockedTerm messageText blockedTerms =
     (if length blockedTerms = 0 then Some (False, [])
      else (let messageLower = ToLower messageText;
                normalizedMessage = ReplaceAll (ReplaceAll messageLower (CHR ''_'') (CHR '' ''))
                                      (CHR ''-'') (CHR '' '')
            in containsBlockedTerm_loop messageLower normalizedMessage blockedTerms))"

section \<open>The moderation client (groq package)\<close>

text \<open>
  The remote classifier is the chat-completion endpoint of the \<open>go-openai\<close> client. It is
  an opaque collaborator: a function from the request to either an error (its message) or
  a response with a list of choices. The context argument of the Go methods only reaches
  that call and is part of how the collaborator answers; logging is left out.
\<close>

record ChatCompletionMessage =
  Role :: string
  Content :: string

record ChatCompletionRequest =
  ReqModel :: string
  Messages :: "ChatCompletionMessage list"
  Temperature :: rat
  MaxTokens :: int

record ChatCompletionChoice =
  Message :: ChatCompletionMessage

record ChatCompletionResponse =
  Choices :: "ChatCompletionChoice list"

type_synonym openai_Client = "ChatCompletionRequest \<Rightarrow> string + ChatCompletionResponse"

type_synonym PromptTemplate = "string \<Rightarrow> string"

text \<open>
  \<open>*Client\<close> is a \<open>Client option\<close> (\<open>None\<close> the nil pointer), and so is the field
  \<open>client\<close>. The prompt builder is a function: \<open>NewClient\<close> never leaves it nil.
\<close>

record Client =
  client :: "openai_Client option"
  model :: string
  promptBuilder :: PromptTemplate
  blockedTerms :: "string list"

text \<open>In \<open>Config\<close> a nil prompt template and a nil term slice are \<open>None\<close>.\<close>

record Config =
  APIKey :: string
  Model :: string
  BaseURL :: string
  PromptTemplate :: "PromptTemplate option"
  BlockedTerms :: "string list option"

text \<open>The anonymous struct that the classifier's JSON answer is decoded into.\<close>

record moderationResult =
  IsMalicious :: bool
  ErrorCode :: string
  Reason :: string

text \<open>
  \<open>json.Unmarshal\<close> into a zero-valued \<open>moderationResult\<close> is a parameter of the model:
  a function from the text to the decoding error or the decoded struct.
\<close>

type_synonym unmarshal = "string \<Rightarrow> string + moderationResult"

text \<open>The result of a check: \<open>(isMalicious, errorCode, reason, err)\<close>, \<open>err = None\<close> for nil.\<close>

type_synonym verdict = "bool \<times> string \<times> string \<times> string option"

definition newline :: string where
  "newline = [char_of (10 :: nat)]"

definition defaultPromptTemplate :: PromptTemplate where
  \<open>defaultPromptTemplate messageText =
     ''Analyze the following message and determine if it contains malicious, inappropriate, spam, or harmful content.''
     @ newline @ newline
     @ ''Message: "'' @ messageText @ ''"'' @ newline @ newline
     @ ''Respond with ONLY a JSON object in this exact format:'' @ newline
     @ ''{'' @ newline
     @ ''  "is_malicious": true or false,'' @ newline
     @ ''  "error_code": "ERROR_CODE" or null,'' @ newline
     @ ''  "reason": "brief reason"'' @ newline
     @ ''}'' @ newline @ newline
     @ ''Error codes to use if malicious:'' @ newline
     @ ''- CONTENT_SPAM: for spam messages'' @ newline
     @ ''- CONTENT_INAPPROPRIATE: for inappropriate language or content'' @ newline
     @ ''- CONTENT_HARASSMENT: for harassment or bullying'' @ newline
     @ ''- CONTENT_SCAM: for scam or phishing attempts'' @ newline
     @ ''- CONTENT_VIOLENCE: for violent or threatening content'' @ newline
     @ ''- CONTENT_OTHER: for other malicious content'' @ newline @ newline
     @ ''If the message is safe, set is_malicious to false and error_code to null.''\<close>

text \<open>
  \<open>defaultBlockedTerms\<close> reads the embedded file \<open>blocked_terms.txt\<close>, whose content is a
  parameter here (the file is not part of the sources at hand).
\<close>

fun defaultBlockedTerms_loop :: "string list \<Rightarrow> string list \<Rightarrow> string list" where
  "defaultBlockedTerms_loop [] terms = terms"
| "defaultBlockedTerms_loop (line # lines) terms =
     (let trimmed = TrimSpace line
      in if trimmed \<noteq> [] \<and> \<not> HasPrefix trimmed ''#''
         then defaultBlockedTerms_loop lines (terms @ [trimmed])
         else defaultBlockedTerms_loop lines terms)"

definition defaultBlockedTerms :: "string \<Rightarrow> string list" where
  "defaultBlockedTerms defaultBlockedTermsFile =
     (if defaultBlockedTermsFile = [] then []
      else defaultBlockedTerms_loop (Split defaultBlockedTermsFile (char_of (10 :: nat))) [])"

text \<open>
  \<open>NewClient\<close>: the process environment (\<open>os.Getenv\<close>, empty for an unset variable), the
  constructor of the API client (from key and base URL) and the embedded term file are
  parameters.
\<close>

definition NewClient ::
  "(string \<Rightarrow> string) \<Rightarrow> (string \<Rightarrow> string \<Rightarrow> openai_Client) \<Rightarrow> string \<Rightarrow> Config \<Rightarrow> Client option" where
  "NewClient getenv newClientWithConfig defaultBlockedTermsFile cfg =
     (let apiKey = (if APIKey cfg = [] then getenv ''GROQ_API_KEY'' else APIKey cfg)
      in if apiKey = [] then None
         else (let model0 = (if Model cfg = []
                             then (if getenv ''GROQ_MODEL'' = [] then ''llama-3.1-8b-instant''
                                   else getenv ''GROQ_MODEL'')
                             else Model cfg);
                   baseURL = (if BaseURL cfg = [] then ''https://api.groq.com/openai/v1''
                              else BaseURL cfg);
                   client0 = newClientWithConfig apiKey baseURL;
                   promptBuilder0 = (case PromptTemplate cfg of
                                       None \<Rightarrow> defaultPromptTemplate
                                     | Some p \<Rightarrow> p);
                   blockedTerms0 = (case BlockedTerms cfg of
                                      None \<Rightarrow> defaultBlockedTerms defaultBlockedTermsFile
                                    | Some ts \<Rightarrow> ts)
               in Some \<lparr>client = Some client0, model = model0,
                        promptBuilder = promptBuilder0, blockedTerms = blockedTerms0\<rparr>))"

definition GetModel :: "Client option \<Rightarrow> string" where
  "GetModel c = (case c of None \<Rightarrow> ''llama-3.1-8b-instant'' | Some cl \<Rightarrow> model cl)"

text \<open>
  The cleaning of the response text in \<open>CheckMessageContent\<close>: trim, strip one markdown
  fence (tagged \<open>json\<close> or bare), trim again.
\<close>

definition clean_response :: "string \<Rightarrow> string" where
  "clean_response responseText0 =
     (let responseText1 = TrimSpace responseText0;
          responseText2 =
            (if HasPrefix responseText1 ''```json''
             then TrimSuffix (TrimPrefix responseText1 ''```json'') ''```''
             else if HasPrefix responseText1 ''```''
             then TrimSuffix (TrimPrefix responseText1 ''```'') ''```''
             else responseText1)
      in TrimSpace responseText2)"

text \<open>
  \<open>CheckMessageContent\<close> returns the verdict and, beside it, the requests it has sent to
  the remote classifier (the effect of the call, in order).
\<close>

definition CheckMessageContent ::
  "unmarshal \<Rightarrow> Client option \<Rightarrow> string \<Rightarrow> verdict \<times> ChatCompletionRequest list" where
  "CheckMessageContent json_Unmarshal c messageText =
     (case c of
        None \<Rightarrow> ((False, [], [], None), [])
      | Some cl \<Rightarrow>
          (case client cl of
             None \<Rightarrow> ((False, [], [], None), [])
           | Some api \<Rightarrow>
               (let model0 = GetModel c;
                    prompt = promptBuilder cl messageText;
                    req = \<lparr>ReqModel = model0,
                           Messages = [\<lparr>Role = ''user'', Content = prompt\<rparr>],
                           Temperature = 1 / 10,
                           MaxTokens = 150\<rparr>
                in (case api req of
                      Inl err \<Rightarrow>
                        ((False, [], [], Some (''error calling Groq API: '' @ err)), [req])
                    | Inr resp \<Rightarrow>
                        (case Choices resp of
                           [] \<Rightarrow> ((False, [], [], Some ''no response from Groq API''), [req])
                         | choice # _ \<Rightarrow>
                             (let responseText = clean_response (Content (Message choice))
                              in (case json_Unmarshal responseText of
                                    Inl perr \<Rightarrow>
                                      (if Contains (ToLower responseText) ''is_malicious'' \<and>
                                          Contains (ToLower responseText) ''true''
                                       then ((True, ''CONTENT_OTHER'', [], None), [req])
                                       else ((False, [], [], None), [req]))
                                  | Inr moderationResult \<Rightarrow>
                                      (if IsMalicious moderationResult
                                       then (let errorCode =
                                                   (if ErrorCode moderationResult = []
                                                    then ''CONTENT_OTHER''
                                                    else ErrorCode moderationResult)
                                             in ((True, errorCode, Reason moderationResult, None),
                                                 [req]))
                                       else ((False, [], [], None), [req])))))))))"

definition FilterMessageWithAI ::
  "unmarshal \<Rightarrow> Client option \<Rightarrow> string \<Rightarrow> verdict \<times> ChatCompletionRequest list" where
  "FilterMessageWithAI json_Unmarshal c messageText =
     CheckMessageContent json_Unmarshal c messageText"

section \<open>The sink for rejected messages\<close>

text \<open>
  A \<open>MaliciousMessageSaver\<close> is caller code with one method; a nil interface value is
  \<open>None\<close>. The helper returns the error and the list of invocations of the sink it made.
\<close>

type_synonym save_args = "int \<times> int \<times> string \<times> string \<times> string \<times> string"

type_synonym MaliciousMessageSaver = "save_args \<Rightarrow> string option"

definition SaveMaliciousMessage ::
  "MaliciousMessageSaver option \<Rightarrow> int \<Rightarrow> int \<Rightarrow> string \<Rightarrow> string \<Rightarrow> string \<Rightarrow> string
     \<Rightarrow> string option \<times> save_args list" where
  "SaveMaliciousMessage saver fromUserID toUserID messageText errorCode reason currentTime =
     (case saver of
        None \<Rightarrow> (None, [])
      | Some s \<Rightarrow>
          (s (fromUserID, toUserID, messageText, errorCode, reason, currentTime),
           [(fromUserID, toUserID, messageText, errorCode, reason, currentTime)]))"

section \<open>The validator adapter (validators/acceptable.go)\<close>

text \<open>
  The validator function that \<open>AcceptableMessageValidator\<close> returns, applied to the
  string of the field; it is returned with the requests sent to the classifier.
\<close>

definition AcceptableMessageValidator ::
  "unmarshal \<Rightarrow> Client option \<Rightarrow> string \<Rightarrow> bool \<times> ChatCompletionRequest list" where
  "AcceptableMessageValidator json_Unmarshal groqClient msg =
     (if msg = [] then (True, [])
      else (case FilterMessageWithAI json_Unmarshal groqClient msg of
              ((isMalicious, _, _, err), calls) \<Rightarrow>
                (if err \<noteq> None then (False, calls) else (\<not> isMalicious, calls))))"

section \<open>What the specification says, as definitions\<close>

text \<open>
  The specification's term matcher: a term occurs at position \<open>i\<close> of a text, and it
  does so at a word boundary when the byte before and the byte after the occurrence are
  absent or not ASCII letters or digits. These definitions follow the words of the
  specification; the theorems below compare them with the code.
\<close>

definition occurs_at :: "string \<Rightarrow> string \<Rightarrow> nat \<Rightarrow> bool" where
  "occurs_at message term i = (i \<le> length message \<and> HasPrefix (drop i message) term)"

definition boundary_at :: "string \<Rightarrow> string \<Rightarrow> nat \<Rightarrow> bool" where
  "boundary_at message term i =
     (occurs_at message term i \<and>
      (i = 0 \<or> \<not> isAlphanumeric (message ! (i - 1))) \<and>
      (length message \<le> i + length term \<or> \<not> isAlphanumeric (message ! (i + length term))))"

text \<open>The two boundary tests of \<open>isWholeWord\<close> at a position, as one predicate.\<close>

definition bounds_ok :: "string \<Rightarrow> string \<Rightarrow> nat \<Rightarrow> bool" where
  "bounds_ok message term p =
     ((p = 0 \<or> (0 < p \<and> \<not> isAlphanumeric (message ! (p - 1)))) \<and>
      (length message \<le> p + length term \<or> \<not> isAlphanumeric (message ! (p + length term))))"

definition word_boundary_match :: "string \<Rightarrow> string \<Rightarrow> bool" where
  "word_boundary_match message term = (\<exists>i \<in> {0 .. length message}. boundary_at message term i)"

definition separator_normalized :: "string \<Rightarrow> string" where
  "separator_normalized s =
     map (\<lambda>c. if c = CHR ''_'' \<or> c = CHR ''-'' then CHR '' '' else c) s"

text \<open>
  A term of the list hits a text when, lowercased and trimmed, it is not empty and occurs
  at a word boundary in the lowercased text or in its separator-normalized form.
  \<open>Matches\<close> is the specification's matcher: the first hit in list order, or no match.
\<close>

definition term_matches :: "string \<Rightarrow> string \<Rightarrow> bool" where
  "term_matches X t =
     (let tl = ToLower (TrimSpace t)
      in tl \<noteq> [] \<and> (word_boundary_match (ToLower X) tl \<or>
                      word_boundary_match (separator_normalized (ToLower X)) tl))"

definition Matches :: "string \<Rightarrow> string list \<Rightarrow> bool \<times> string" where
  "Matches X T =
     (case find (term_matches X) T of
        None \<Rightarrow> (False, [])
      | Some t \<Rightarrow> (True, ToLower (TrimSpace t)))"



text \<open>A string of white space, and the text of a JSON object: from a brace to a brace.\<close>

definition white :: "string \<Rightarrow> bool" where
  "white w = list_all asciiSpace w"

definition json_object_text :: "string \<Rightarrow> bool" where
  "json_object_text body = (body \<noteq> [] \<and> hd body = CHR ''{'' \<and> last body = CHR ''}'')"


section \<open>Stub collaborators for concrete runs\<close>

text \<open>
  A classifier that answers every request with one choice of a given text, one that fails
  with a given error, and one that answers with no choice at all.
\<close>

definition reply_with :: "string \<Rightarrow> openai_Client" where
  "reply_with text = (\<lambda>req. Inr \<lparr>Choices = [\<lparr>Message = \<lparr>Role = ''assistant'', Content = text\<rparr>\<rparr>]\<rparr>)"

definition fail_with :: "string \<Rightarrow> openai_Client" where
  "fail_with e = (\<lambda>req. Inl e)"

definition reply_nothing :: openai_Client where
  "reply_nothing = (\<lambda>req. Inr \<lparr>Choices = []\<rparr>)"

text \<open>
  Three answers of a classifier and what \<open>json.Unmarshal\<close> decodes them to: a safe
  verdict (a JSON \<open>null\<close> leaves the string field empty), a scam verdict, and a verdict
  with a code outside the six. \<open>decode_examples\<close> is the decoder at these three
  documents; the other texts it is applied to below are not JSON.
\<close>

definition safe_json :: string where
  \<open>safe_json = ''{"is_malicious": false, "error_code": null, "reason": ""}''\<close>

definition scam_json :: string where
  \<open>scam_json = ''{"is_malicious": true, "error_code": "CONTENT_SCAM", "reason": "phishing link"}''\<close>

definition hate_json :: string where
  \<open>hate_json = ''{"is_malicious": true, "error_code": "CONTENT_HATE", "reason": "hate speech"}''\<close>

definition decode_examples :: unmarshal where
  "decode_examples text =
     (if text = safe_json then Inr \<lparr>IsMalicious = False, ErrorCode = [], Reason = []\<rparr>
      else if text = scam_json
      then Inr \<lparr>IsMalicious = True, ErrorCode = ''CONTENT_SCAM'', Reason = ''phishing link''\<rparr>
      else if text = hate_json
      then Inr \<lparr>IsMalicious = True, ErrorCode = ''CONTENT_HATE'', Reason = ''hate speech''\<rparr>
      else Inl ''invalid character'')"

text \<open>A client as \<open>NewClient\<close> builds it, around a given classifier and term list.\<close>

definition client_with :: "openai_Client \<Rightarrow> string list \<Rightarrow> Client" where
  "client_with api terms =
     \<lparr>client = Some api, model = ''llama-3.1-8b-instant'',
      promptBuilder = defaultPromptTemplate, blockedTerms = terms\<rparr>"

section \<open>The term matcher meets its specification\<close>

declare isWholeWord_from.simps [simp del]

lemma occurs_at_Cons: "occurs_at (c # cs) t (Suc i) = occurs_at cs t i"
  by (simp add: occurs_at_def)

lemma occurs_at_0: "occurs_at s t 0 = HasPrefix s t"
  by (simp add: occurs_at_def)

lemma Index_None: "Index s t = None \<Longrightarrow> \<not> occurs_at s t i"
proof (induction s arbitrary: i)
  case Nil
  then show ?case by (auto simp: occurs_at_def HasPrefix_def split: if_splits)
next
  case (Cons c cs)
  then show ?case
    by (cases i) (auto simp: occurs_at_0 occurs_at_Cons split: if_splits)
qed

lemma Index_Some: "Index s t = Some p \<Longrightarrow> occurs_at s t p \<and> (\<forall>j<p. \<not> occurs_at s t j)"
proof (induction s arbitrary: p)
  case Nil
  then show ?case by (auto simp: occurs_at_def HasPrefix_def split: if_splits)
next
  case (Cons c cs)
  show ?case
  proof (cases "HasPrefix (c # cs) t")
    case True
    with Cons.prems show ?thesis by (simp add: occurs_at_0)
  next
    case False
    with Cons.prems obtain q where q: "Index cs t = Some q" "p = Suc q" by auto
    from Cons.IH [OF q(1)] have ih: "occurs_at cs t q" "\<forall>j<q. \<not> occurs_at cs t j" by auto
    have "\<not> occurs_at (c # cs) t j" if "j < p" for j
    proof (cases j)
      case 0
      with False show ?thesis by (simp add: occurs_at_0)
    next
      case (Suc k)
      with that q ih show ?thesis by (simp add: occurs_at_Cons)
    qed
    with ih q show ?thesis by (simp add: occurs_at_Cons)
  qed
qed

lemma occurs_at_drop: "index \<le> length s \<Longrightarrow> occurs_at (drop index s) t j = occurs_at s t (index + j)"
  by (auto simp: occurs_at_def add.commute)

lemma occurs_at_length: "occurs_at s t i \<Longrightarrow> i + length t \<le> length s"
proof -
  assume a: "occurs_at s t i"
  then have "take (length t) (drop i s) = t"
    unfolding occurs_at_def HasPrefix_def by blast
  from arg_cong [OF this, of length] have "min (length t) (length s - i) = length t"
    by simp
  then have "length t \<le> length s - i" by linarith
  moreover from a have "i \<le> length s" by (simp add: occurs_at_def)
  ultimately show ?thesis by linarith
qed

lemma boundary_at_bounds_ok: "boundary_at message term i = (occurs_at message term i \<and> bounds_ok message term i)"
  by (auto simp: boundary_at_def bounds_ok_def)


lemma isWholeWord_from_None:
  "index \<le> length message \<Longrightarrow> Index (drop index message) term = None \<Longrightarrow>
   isWholeWord_from message term index = Some False"
  by (subst isWholeWord_from.simps) simp

lemma isWholeWord_from_Some:
  "index \<le> length message \<Longrightarrow> Index (drop index message) term = Some pos \<Longrightarrow>
   isWholeWord_from message term index =
     (if bounds_ok message term (index + pos) then Some True
      else isWholeWord_from message term (index + pos + 1))"
  by (subst isWholeWord_from.simps) (simp add: bounds_ok_def Let_def)


lemma isWholeWord_from_spec:
  "term \<noteq> [] \<Longrightarrow> index \<le> length message \<Longrightarrow>
   isWholeWord_from message term index = Some (\<exists>i\<ge>index. boundary_at message term i)"
proof (induction message "term" index rule: isWholeWord_from.induct)
  case (1 message "term" index)
  show ?case
  proof (cases "Index (drop index message) term")
    case None
    have "\<not> boundary_at message term i" if "index \<le> i" for i
    proof -
      from Index_None [OF None, of "i - index"] that "1.prems"(2)
      have "\<not> occurs_at message term i" by (simp add: occurs_at_drop)
      then show ?thesis by (simp add: boundary_at_def)
    qed
    with isWholeWord_from_None [OF "1.prems"(2) None] show ?thesis by auto
  next
    case (Some pos)
    define actualPos where "actualPos = index + pos"
    from Index_Some [OF Some] have raw: "occurs_at (drop index message) term pos"
      "\<forall>j<pos. \<not> occurs_at (drop index message) term j" by auto
    from raw(1) "1.prems"(2) have occ: "occurs_at message term actualPos"
      by (simp add: occurs_at_drop actualPos_def)
    have first: "\<not> occurs_at message term j" if "index \<le> j" "j < actualPos" for j
    proof -
      from that have "j - index < pos" by (simp add: actualPos_def less_diff_conv2 add.commute)
      with raw(2) have "\<not> occurs_at (drop index message) term (j - index)" by simp
      with that(1) "1.prems"(2) show ?thesis by (simp add: occurs_at_drop)
    qed
    from occurs_at_length [OF occ] "1.prems"(1) have bound: "actualPos + 1 \<le> length message"
      by (cases "term") auto
    note unfold = isWholeWord_from_Some [OF "1.prems"(2) Some, folded actualPos_def]
    show ?thesis
    proof (cases "bounds_ok message term actualPos")
      case True
      with occ have "boundary_at message term actualPos" by (simp add: boundary_at_bounds_ok)
      moreover have "index \<le> actualPos" by (simp add: actualPos_def)
      ultimately have "\<exists>i\<ge>index. boundary_at message term i" by blast
      with unfold True show ?thesis by simp
    next
      case False
      then have nb: "\<not> ((actualPos = 0 \<or> (0 < actualPos \<and> \<not> isAlphanumeric (message ! (actualPos - 1)))) \<and>
          (length message \<le> actualPos + length term \<or> \<not> isAlphanumeric (message ! (actualPos + length term))))"
        by (simp add: bounds_ok_def)
      have notlt: "\<not> length message < index" using "1.prems"(2) by simp
      have ih: "isWholeWord_from message term (actualPos + 1) = Some (\<exists>i\<ge>actualPos + 1. boundary_at message term i)"
        by (rule "1.IH" [OF notlt Some actualPos_def refl refl refl nb "1.prems"(1) bound])
      have "(\<exists>i\<ge>actualPos + 1. boundary_at message term i) = (\<exists>i\<ge>index. boundary_at message term i)"
      proof
        assume "\<exists>i\<ge>actualPos + 1. boundary_at message term i"
        then obtain i where "actualPos + 1 \<le> i" "boundary_at message term i" by blast
        moreover from this have "index \<le> i" by (simp add: actualPos_def)
        ultimately show "\<exists>i\<ge>index. boundary_at message term i" by blast
      next
        assume "\<exists>i\<ge>index. boundary_at message term i"
        then obtain i where i: "index \<le> i" "boundary_at message term i" by blast
        then have "occurs_at message term i" by (simp add: boundary_at_def)
        with first [OF i(1)] have "actualPos \<le> i" by (meson not_le)
        moreover from False i(2) have "i \<noteq> actualPos" by (auto simp: boundary_at_bounds_ok)
        ultimately have "actualPos + 1 \<le> i" by simp
        with i(2) show "\<exists>i\<ge>actualPos + 1. boundary_at message term i" by blast
      qed
      with unfold False ih show ?thesis by simp
    qed
  qed
qed

lemma boundary_at_le: "boundary_at message term i \<Longrightarrow> i \<le> length message"
  by (simp add: boundary_at_def occurs_at_def)

lemma isWholeWord_spec:
  assumes "term \<noteq> []"
  shows "isWholeWord message term = Some (word_boundary_match message term)"
proof -
  have "(\<exists>i\<ge>0. boundary_at message term i) = word_boundary_match message term"
    unfolding word_boundary_match_def using boundary_at_le [of message "term"]
    by auto
  with isWholeWord_from_spec [OF assms, of 0 message] show ?thesis
    by (simp add: isWholeWord_def)
qed








lemmas matcher_eval =
  Matches_def term_matches_def word_boundary_match_def boundary_at_def occurs_at_def
  separator_normalized_def HasPrefix_def isAlphanumeric_def atLeast0_atMost_Suc Let_def



text \<open>
  Claim C3. \<open>isWholeWord\<close> accepts a nonempty term exactly when some occurrence of it,
  at any position of the message, has no ASCII letter or digit right before and right
  after it (all occurrences are scanned, not only the first). With the term list
  \<open>["ass"]\<close> there is no match in \<open>"class"\<close>, \<open>"classroom"\<close> and \<open>"a_s_s"\<close>, and a match
  in \<open>"you ass!"\<close>; in \<open>"class ass"\<close> the second occurrence is the one that matches.
\<close>

theorem isWholeWord_word_boundary:
  "(term \<noteq> [] \<longrightarrow> isWholeWord message term = Some (word_boundary_match message term)) \<and>
   containsBlockedTerm ''class'' [''ass''] = Some (False, []) \<and>
   containsBlockedTerm ''classroom'' [''ass''] = Some (False, []) \<and>
   containsBlockedTerm ''you ass!'' [''ass''] = Some (True, ''ass'') \<and>
   containsBlockedTerm ''a_s_s'' [''ass''] = Some (False, []) \<and>
   containsBlockedTerm ''class ass'' [''ass''] = Some (True, ''ass'')"
proof -
  have "containsBlockedTerm ''class'' [''ass''] = Some (False, [])" by code_simp
  moreover have "containsBlockedTerm ''classroom'' [''ass''] = Some (False, [])" by code_simp
  moreover have "containsBlockedTerm ''you ass!'' [''ass''] = Some (True, ''ass'')" by code_simp
  moreover have "containsBlockedTerm ''a_s_s'' [''ass''] = Some (False, [])" by code_simp
  moreover have "containsBlockedTerm ''class ass'' [''ass''] = Some (True, ''ass'')" by code_simp
  ultimately show ?thesis by (simp add: isWholeWord_spec)
qed

theorem isWholeWord_word_boundary_witness:
  "''ass'' \<noteq> [] \<and> isWholeWord ''class ass'' ''ass'' = Some True \<and>
   isWholeWord ''classroom'' ''ass'' = Some False"
proof -
  have "word_boundary_match ''class ass'' ''ass''" by (simp add: matcher_eval)
  moreover have "\<not> word_boundary_match ''classroom'' ''ass''" by (simp add: matcher_eval)
  ultimately show ?thesis
    using isWholeWord_word_boundary [of "''ass''" "''class ass''"]
      isWholeWord_word_boundary [of "''ass''" "''classroom''"]
    by simp
qed

section \<open>The moderation client: what a check returns\<close>

text \<open>
  Claim C5. For every message text, a client that is not initialized (a nil client, or a
  client whose API client is nil) makes \<open>CheckMessageContent\<close> return
  \<open>(false, "", "")\<close> with a nil error, and no request is sent. \<open>NewClient\<close> returns
  the nil client when neither the configuration nor the environment gives an API key.
\<close>

theorem CheckMessageContent_uninitialized:
  "CheckMessageContent u None messageText = ((False, [], [], None), []) \<and>
   (client cl = None \<longrightarrow>
      CheckMessageContent u (Some cl) messageText = ((False, [], [], None), [])) \<and>
   (APIKey cfg = [] \<and> getenv ''GROQ_API_KEY'' = [] \<longrightarrow>
      NewClient getenv newClientWithConfig file cfg = None)"
  by (simp add: CheckMessageContent_def NewClient_def)

theorem CheckMessageContent_uninitialized_witness:
  "client \<lparr>client = None, model = ''m'', promptBuilder = defaultPromptTemplate,
           blockedTerms = [''spam'']\<rparr> = None \<and>
   CheckMessageContent decode_examples
     (Some \<lparr>client = None, model = ''m'', promptBuilder = defaultPromptTemplate,
            blockedTerms = [''spam'']\<rparr>) ''free money'' = ((False, [], [], None), []) \<and>
   NewClient (\<lambda>v. []) (\<lambda>key url. reply_with scam_json) []
     \<lparr>APIKey = [], Model = [], BaseURL = [], PromptTemplate = None, BlockedTerms = None\<rparr>
     = None \<and>
   CheckMessageContent decode_examples
     (NewClient (\<lambda>v. []) (\<lambda>key url. reply_with scam_json) []
        \<lparr>APIKey = [], Model = [], BaseURL = [], PromptTemplate = None, BlockedTerms = None\<rparr>)
     ''free money'' = ((False, [], [], None), [])"
  using CheckMessageContent_uninitialized
    [of decode_examples "''free money''"
        "\<lparr>client = None, model = ''m'', promptBuilder = defaultPromptTemplate,
          blockedTerms = [''spam'']\<rparr>"
        "\<lparr>APIKey = [], Model = [], BaseURL = [], PromptTemplate = None, BlockedTerms = None\<rparr>"
        "\<lambda>v. []" "\<lambda>key url. reply_with scam_json" "[]"]
  by simp

text \<open>
  Claim C6. With an initialized client, \<open>CheckMessageContent\<close> sends exactly one
  request. If the remote call answers it with an error, or with an empty list of choices,
  the result is not malicious, with empty error code and reason, together with a non-nil
  error that describes the failure.
\<close>

theorem CheckMessageContent_fail_open:
  assumes "client cl = Some api"
  shows "\<exists>req. snd (CheckMessageContent u (Some cl) messageText) = [req] \<and>
           (\<forall>e. api req = Inl e \<longrightarrow>
                fst (CheckMessageContent u (Some cl) messageText)
                  = (False, [], [], Some (''error calling Groq API: '' @ e))) \<and>
           (\<forall>resp. api req = Inr resp \<and> Choices resp = [] \<longrightarrow>
                fst (CheckMessageContent u (Some cl) messageText)
                  = (False, [], [], Some ''no response from Groq API''))"
  using assms
  by (auto simp: CheckMessageContent_def Let_def split: sum.splits list.splits)

theorem CheckMessageContent_fail_open_witness:
  "client (client_with (fail_with ''timeout'') []) = Some (fail_with ''timeout'') \<and>
   fst (CheckMessageContent decode_examples (Some (client_with (fail_with ''timeout'') [])) ''hi'')
     = (False, [], [], Some ''error calling Groq API: timeout'') \<and>
   fst (CheckMessageContent decode_examples (Some (client_with reply_nothing [])) ''hi'')
     = (False, [], [], Some ''no response from Groq API'')"
proof -
  have c1: "client (client_with (fail_with ''timeout'') []) = Some (fail_with ''timeout'')"
    and c2: "client (client_with reply_nothing []) = Some reply_nothing"
    by (simp_all add: client_with_def)
  from CheckMessageContent_fail_open [OF c1, of decode_examples "''hi''"]
  have "fst (CheckMessageContent decode_examples (Some (client_with (fail_with ''timeout'') [])) ''hi'')
      = (False, [], [], Some (''error calling Groq API: '' @ ''timeout''))"
    by (auto simp: fail_with_def)
  moreover from CheckMessageContent_fail_open [OF c2, of decode_examples "''hi''"]
  have "fst (CheckMessageContent decode_examples (Some (client_with reply_nothing [])) ''hi'')
      = (False, [], [], Some ''no response from Groq API'')"
    by (auto simp: reply_nothing_def)
  ultimately show ?thesis using c1 by simp
qed

text \<open>
  Claim C10. \<open>SaveMaliciousMessage\<close> with a nil saver returns nil and does not invoke
  the sink; with a saver it invokes it once, on the arguments given, and returns the
  saver's own result.
\<close>

theorem SaveMaliciousMessage_delegates:
  "SaveMaliciousMessage None fromUserID toUserID messageText errorCode reason currentTime
     = (None, []) \<and>
   SaveMaliciousMessage (Some saver) fromUserID toUserID messageText errorCode reason currentTime
     = (saver (fromUserID, toUserID, messageText, errorCode, reason, currentTime),
        [(fromUserID, toUserID, messageText, errorCode, reason, currentTime)])"
  by (simp add: SaveMaliciousMessage_def)

section \<open>Concrete runs, the blocklist stage and the verdict invariant\<close>

lemma clean_safe_json: "clean_response safe_json = safe_json"
  by code_simp

lemma clean_scam_json: "clean_response scam_json = scam_json"
  by code_simp


lemma decode_safe_json:
  "decode_examples safe_json = Inr \<lparr>IsMalicious = False, ErrorCode = [], Reason = []\<rparr>"
  by (simp add: decode_examples_def)

lemma decode_scam_json:
  "decode_examples scam_json =
     Inr \<lparr>IsMalicious = True, ErrorCode = ''CONTENT_SCAM'', Reason = ''phishing link''\<rparr>"
  by (simp add: decode_examples_def safe_json_def scam_json_def)


lemmas run_defs =
  CheckMessageContent_def client_with_def reply_with_def fail_with_def reply_nothing_def
  GetModel_def Let_def

lemma run_safe:
  "CheckMessageContent decode_examples (Some (client_with (reply_with safe_json) ts)) m =
     ((False, [], [], None),
      [\<lparr>ReqModel = ''llama-3.1-8b-instant'',
        Messages = [\<lparr>Role = ''user'', Content = defaultPromptTemplate m\<rparr>],
        Temperature = 1 / 10, MaxTokens = 150\<rparr>])"
  by (simp add: run_defs clean_safe_json decode_safe_json)

lemma run_scam:
  "fst (CheckMessageContent decode_examples (Some (client_with (reply_with scam_json) ts)) m) =
     (True, ''CONTENT_SCAM'', ''phishing link'', None)"
  by (simp add: run_defs clean_scam_json decode_scam_json)


lemma run_fail:
  "fst (CheckMessageContent decode_examples (Some (client_with (fail_with e) ts)) m) =
     (False, [], [], Some (''error calling Groq API: '' @ e))"
  by (simp add: run_defs)

text \<open>
  Claim C1 says that a blocked term in the message gives the verdict
  \<open>(true, "CONTENT_INAPPROPRIATE", "")\<close> without a remote call. The code does otherwise:
  with the term list \<open>["spam"]\<close> and the message \<open>"This is SPAM!!"\<close> the term matcher
  does match, yet \<open>CheckMessageContent\<close> sends the request and returns the classifier's
  verdict, here \<open>(false, "", "")\<close>. Its result never depends on the term list of the
  client.
\<close>

theorem CheckMessageContent_skips_blocklist:
  "containsBlockedTerm ''This is SPAM!!'' [''spam''] = Some (True, ''spam'') \<and>
   CheckMessageContent decode_examples
       (Some (client_with (reply_with safe_json) [''spam''])) ''This is SPAM!!''
     = ((False, [], [], None),
        [\<lparr>ReqModel = ''llama-3.1-8b-instant'',
          Messages = [\<lparr>Role = ''user'', Content = defaultPromptTemplate ''This is SPAM!!''\<rparr>],
          Temperature = 1 / 10, MaxTokens = 150\<rparr>]) \<and>
   CheckMessageContent u (Some (cl\<lparr>blockedTerms := ts\<rparr>)) m = CheckMessageContent u (Some cl) m"
proof -
  have "containsBlockedTerm ''This is SPAM!!'' [''spam''] = Some (True, ''spam'')"
    by code_simp
  moreover have "CheckMessageContent u (Some (cl\<lparr>blockedTerms := ts\<rparr>)) m
      = CheckMessageContent u (Some cl) m"
    by (cases "client cl") (simp_all add: CheckMessageContent_def GetModel_def)
  ultimately show ?thesis by (simp add: run_safe)
qed




text \<open>
  Claim C9. The validator accepts the empty field without a check, whatever the classifier
  would do; on a nonempty field it rejects when the check returns an error, and otherwise
  accepts exactly when the check says not malicious.
\<close>

theorem AcceptableMessageValidator_policy:
  "AcceptableMessageValidator u groqClient [] = (True, []) \<and>
   (msg \<noteq> [] \<and>
    CheckMessageContent u groqClient msg = ((isMalicious, errorCode, reason, err), calls) \<longrightarrow>
      fst (AcceptableMessageValidator u groqClient msg)
        = (if err \<noteq> None then False else \<not> isMalicious))"
  by (simp add: AcceptableMessageValidator_def FilterMessageWithAI_def)

theorem AcceptableMessageValidator_policy_witness:
  "fst (AcceptableMessageValidator decode_examples
          (Some (client_with (fail_with ''timeout'') [])) ''hello'') = False \<and>
   fst (AcceptableMessageValidator decode_examples
          (Some (client_with (reply_with safe_json) [])) ''hello'') = True \<and>
   fst (AcceptableMessageValidator decode_examples
          (Some (client_with (reply_with scam_json) [])) ''hello'') = False \<and>
   AcceptableMessageValidator decode_examples
          (Some (client_with (fail_with ''timeout'') [])) [] = (True, [])"
proof -
  have ne: "''hello'' \<noteq> []" by simp
  have r1: "CheckMessageContent decode_examples (Some (client_with (fail_with ''timeout'') [])) ''hello''
      = ((False, [], [], Some (''error calling Groq API: '' @ ''timeout'')),
         snd (CheckMessageContent decode_examples
                (Some (client_with (fail_with ''timeout'') [])) ''hello''))"
    using run_fail [of "''timeout''" "[]" "''hello''"] by (simp add: prod_eq_iff)
  have r2: "CheckMessageContent decode_examples (Some (client_with (reply_with safe_json) [])) ''hello''
      = ((False, [], [], None),
         snd (CheckMessageContent decode_examples
                (Some (client_with (reply_with safe_json) [])) ''hello''))"
    using run_safe [of "[]" "''hello''"] by (simp add: prod_eq_iff)
  have r3: "CheckMessageContent decode_examples (Some (client_with (reply_with scam_json) [])) ''hello''
      = ((True, ''CONTENT_SCAM'', ''phishing link'', None),
         snd (CheckMessageContent decode_examples
                (Some (client_with (reply_with scam_json) [])) ''hello''))"
    using run_scam [of "[]" "''hello''"] by (simp add: prod_eq_iff)
  from AcceptableMessageValidator_policy [THEN conjunct2, rule_format, OF conjI, OF ne r1]
    AcceptableMessageValidator_policy [THEN conjunct2, rule_format, OF conjI, OF ne r2]
    AcceptableMessageValidator_policy [THEN conjunct2, rule_format, OF conjI, OF ne r3]
    AcceptableMessageValidator_policy [THEN conjunct1,
      of decode_examples "Some (client_with (fail_with ''timeout'') [])"]
  show ?thesis by simp
qed

section \<open>Cleaning the classifier's answer\<close>

subsection \<open>Prefixes, suffixes and trimming\<close>

lemma HasPrefix_append: "HasPrefix (p @ s) p"
  by (simp add: HasPrefix_def)

lemma TrimPrefix_append: "TrimPrefix (p @ s) p = s"
  by (simp add: TrimPrefix_def HasPrefix_def)

lemma HasSuffix_append: "HasSuffix (s @ x) x"
  by (simp add: HasSuffix_def)

lemma TrimSuffix_append: "TrimSuffix (s @ x) x = s"
  by (simp add: TrimSuffix_def HasSuffix_def)

lemma HasPrefix_append_both: "HasPrefix (p @ s) (p @ q) = HasPrefix s q"
  by (simp add: HasPrefix_def)

lemma HasPrefix_hd: "HasPrefix s p \<Longrightarrow> p \<noteq> [] \<Longrightarrow> s \<noteq> [] \<and> hd s = hd p"
  by (cases s; cases p) (auto simp: HasPrefix_def)

lemma white_dropWhile: "white w \<Longrightarrow> dropWhile asciiSpace (w @ s) = dropWhile asciiSpace s"
  by (simp add: white_def list_all_iff dropWhile_append2)

lemma dropWhile_hd: "s \<noteq> [] \<Longrightarrow> \<not> P (hd s) \<Longrightarrow> dropWhile P s = s"
  by (cases s) auto

lemma TrimSpace_around:
  assumes "white w1" "white w2" "s \<noteq> []" "\<not> asciiSpace (hd s)" "\<not> asciiSpace (last s)"
  shows "TrimSpace (w1 @ s @ w2) = s"
proof -
  have a: "dropWhile asciiSpace (w1 @ s @ w2) = s @ w2"
    using assms(1,3,4) by (simp add: white_dropWhile dropWhile_hd)
  have w: "white (rev w2)" using assms(2) by (simp add: white_def list_all_iff)
  have "dropWhile asciiSpace (rev (s @ w2)) = dropWhile asciiSpace (rev s)"
    using white_dropWhile [OF w, of "rev s"] by simp
  also have "\<dots> = rev s"
    using assms(3,5) by (simp add: dropWhile_hd hd_rev)
  finally show ?thesis by (simp add: TrimSpace_def a)
qed

lemma TrimSpace_id:
  "s \<noteq> [] \<Longrightarrow> \<not> asciiSpace (hd s) \<Longrightarrow> \<not> asciiSpace (last s) \<Longrightarrow> TrimSpace s = s"
  using TrimSpace_around [of "[]" "[]" s] by (simp add: white_def)

lemma json_object_text_ends:
  assumes "json_object_text body"
  shows "body \<noteq> []" "\<not> asciiSpace (hd body)" "\<not> asciiSpace (last body)"
    "hd body \<noteq> CHR ''`''" "hd body \<noteq> CHR ''j''"
  using assms by (simp_all add: json_object_text_def asciiSpace_def)

lemma clean_response_object:
  assumes "json_object_text body"
  shows "clean_response body = body"
proof -
  note e = json_object_text_ends [OF assms]
  have t: "TrimSpace body = body" using e by (simp add: TrimSpace_id)
  have "\<not> HasPrefix body ''```json''" and "\<not> HasPrefix body ''```''"
    using HasPrefix_hd [of body "''```json''"] HasPrefix_hd [of body "''```''"] e(4)
    by auto
  then show ?thesis by (simp add: clean_response_def t)
qed

lemma clean_response_json_fence:
  assumes "json_object_text body" "white w0" "white w1" "white w2" "white w3"
  shows "clean_response (w0 @ ''```json'' @ w1 @ body @ w2 @ ''```'' @ w3) = body"
proof -
  note e = json_object_text_ends [OF assms(1)]
  let ?inner = "''```json'' @ w1 @ body @ w2 @ ''```''"
  have "TrimSpace (w0 @ ?inner @ w3) = ?inner"
    by (rule TrimSpace_around [OF assms(2) assms(5)]) (simp_all add: asciiSpace_def)
  then have t1: "TrimSpace (w0 @ ''```json'' @ w1 @ body @ w2 @ ''```'' @ w3) = ?inner"
    by simp
  have p: "HasPrefix ?inner ''```json''" by (rule HasPrefix_append)
  have tp: "TrimPrefix ?inner ''```json'' = w1 @ body @ w2 @ ''```''"
    by (rule TrimPrefix_append)
  have ts: "TrimSuffix (w1 @ body @ w2 @ ''```'') ''```'' = w1 @ body @ w2"
    using TrimSuffix_append [of "w1 @ body @ w2" "''```''"] by simp
  have t2: "TrimSpace (w1 @ body @ w2) = body"
    by (rule TrimSpace_around [OF assms(3) assms(4) e(1) e(2) e(3)])
  show ?thesis
    unfolding clean_response_def Let_def t1 using p by (simp only: if_True tp ts t2)
qed

lemma clean_response_plain_fence:
  assumes "json_object_text body" "white w0" "white w1" "white w2" "white w3"
  shows "clean_response (w0 @ ''```'' @ w1 @ body @ w2 @ ''```'' @ w3) = body"
proof -
  note e = json_object_text_ends [OF assms(1)]
  let ?inner = "''```'' @ w1 @ body @ w2 @ ''```''"
  have "TrimSpace (w0 @ ?inner @ w3) = ?inner"
    by (rule TrimSpace_around [OF assms(2) assms(5)]) (simp_all add: asciiSpace_def)
  then have t1: "TrimSpace (w0 @ ''```'' @ w1 @ body @ w2 @ ''```'' @ w3) = ?inner"
    by simp
  have hdj: "hd (w1 @ body @ w2 @ ''```'') \<noteq> CHR ''j''"
  proof (cases w1)
    case Nil
    with e show ?thesis by simp
  next
    case (Cons c cs)
    with assms(3) have "asciiSpace c" by (simp add: white_def)
    then have "c \<noteq> CHR ''j''" by (auto simp: asciiSpace_def)
    with Cons show ?thesis by simp
  qed
  have "HasPrefix ?inner ''```json'' = HasPrefix (w1 @ body @ w2 @ ''```'') ''json''"
    using HasPrefix_append_both [of "''```''" "w1 @ body @ w2 @ ''```''" "''json''"] by simp
  with HasPrefix_hd [of "w1 @ body @ w2 @ ''```''" "''json''"] hdj
  have np: "\<not> HasPrefix ?inner ''```json''" by auto
  have p: "HasPrefix ?inner ''```''" by (rule HasPrefix_append)
  have tp: "TrimPrefix ?inner ''```'' = w1 @ body @ w2 @ ''```''"
    by (rule TrimPrefix_append)
  have ts: "TrimSuffix (w1 @ body @ w2 @ ''```'') ''```'' = w1 @ body @ w2"
    using TrimSuffix_append [of "w1 @ body @ w2" "''```''"] by simp
  have t2: "TrimSpace (w1 @ body @ w2) = body"
    by (rule TrimSpace_around [OF assms(3) assms(4) e(1) e(2) e(3)])
  show ?thesis
    unfolding clean_response_def Let_def t1 using p np by (simp only: if_True if_False tp ts t2)
qed

lemma CheckMessageContent_clean_cong:
  assumes "clean_response t1 = clean_response t2"
  shows "CheckMessageContent u (Some (cl\<lparr>client := Some (reply_with t1)\<rparr>)) m
       = CheckMessageContent u (Some (cl\<lparr>client := Some (reply_with t2)\<rparr>)) m"
  using assms by (simp add: CheckMessageContent_def reply_with_def GetModel_def Let_def)

text \<open>
  Claim C8. For every JSON object text \<open>body\<close>, the result of \<open>CheckMessageContent\<close> on an
  answer that wraps \<open>body\<close> in a \<open>```json\<close> fence, or in a plain \<open>```\<close> fence, with white
  space around the fence and around the body, equals its result on the answer \<open>body\<close>
  itself. When \<open>body\<close> decodes to \<open>is_malicious = true\<close>, \<open>error_code = CONTENT_SCAM\<close>,
  \<open>reason = phishing link\<close>, these three fields are the verdict.
\<close>

theorem fence_stripping_round_trip:
  assumes "json_object_text body" "white w0" "white w1" "white w2" "white w3"
  shows "CheckMessageContent u
           (Some (cl\<lparr>client := Some (reply_with (w0 @ ''```json'' @ w1 @ body @ w2 @ ''```'' @ w3))\<rparr>)) m
         = CheckMessageContent u (Some (cl\<lparr>client := Some (reply_with body)\<rparr>)) m \<and>
         CheckMessageContent u
           (Some (cl\<lparr>client := Some (reply_with (w0 @ ''```'' @ w1 @ body @ w2 @ ''```'' @ w3))\<rparr>)) m
         = CheckMessageContent u (Some (cl\<lparr>client := Some (reply_with body)\<rparr>)) m \<and>
         (u body = Inr \<lparr>IsMalicious = True, ErrorCode = ''CONTENT_SCAM'', Reason = ''phishing link''\<rparr>
          \<longrightarrow> fst (CheckMessageContent u (Some (cl\<lparr>client := Some (reply_with body)\<rparr>)) m)
                = (True, ''CONTENT_SCAM'', ''phishing link'', None))"
proof -
  note c = clean_response_object [OF assms(1)]
  have "clean_response (w0 @ ''```json'' @ w1 @ body @ w2 @ ''```'' @ w3) = clean_response body"
    using clean_response_json_fence [OF assms] c by simp
  note a = CheckMessageContent_clean_cong [OF this]
  have "clean_response (w0 @ ''```'' @ w1 @ body @ w2 @ ''```'' @ w3) = clean_response body"
    using clean_response_plain_fence [OF assms] c by simp
  note b = CheckMessageContent_clean_cong [OF this]
  have "fst (CheckMessageContent u (Some (cl\<lparr>client := Some (reply_with body)\<rparr>)) m)
          = (True, ''CONTENT_SCAM'', ''phishing link'', None)"
    if "u body = Inr \<lparr>IsMalicious = True, ErrorCode = ''CONTENT_SCAM'', Reason = ''phishing link''\<rparr>"
    using that by (simp add: CheckMessageContent_def reply_with_def GetModel_def Let_def c)
  with a b show ?thesis by blast
qed

theorem fence_stripping_round_trip_witness:
  "json_object_text scam_json \<and> white [] \<and> white newline \<and> white '' '' \<and>
   fst (CheckMessageContent decode_examples
          (Some (client_with (reply_with (''```json'' @ newline @ scam_json @ newline @ ''```'' @ '' ''))
                   [])) ''click here'')
     = (True, ''CONTENT_SCAM'', ''phishing link'', None) \<and>
   fst (CheckMessageContent decode_examples
          (Some (client_with (reply_with ('' '' @ ''```'' @ newline @ scam_json @ newline @ ''```''))
                   [])) ''click here'')
     = (True, ''CONTENT_SCAM'', ''phishing link'', None)"
proof -
  have j: "json_object_text scam_json" by (simp add: json_object_text_def scam_json_def)
  have w: "white []" "white newline" "white '' ''"
    by (simp_all add: white_def newline_def asciiSpace_def)
  have d: "decode_examples scam_json =
      Inr \<lparr>IsMalicious = True, ErrorCode = ''CONTENT_SCAM'', Reason = ''phishing link''\<rparr>"
    by (simp add: decode_examples_def safe_json_def scam_json_def)
  have cw: "(client_with reply_nothing [])\<lparr>client := Some api\<rparr> = client_with api []" for api
    by (simp add: client_with_def)
  from fence_stripping_round_trip [OF j w(1) w(2) w(2) w(3), of decode_examples
      "client_with reply_nothing []" "''click here''"] d
  have "fst (CheckMessageContent decode_examples
          (Some (client_with (reply_with ([] @ ''```json'' @ newline @ scam_json @ newline @ ''```'' @ '' ''))
                   [])) ''click here'')
     = (True, ''CONTENT_SCAM'', ''phishing link'', None)"
    by (simp add: cw)
  moreover
  from fence_stripping_round_trip [OF j w(3) w(2) w(2) w(1), of decode_examples
      "client_with reply_nothing []" "''click here''"] d
  have "fst (CheckMessageContent decode_examples
          (Some (client_with (reply_with ('' '' @ ''```'' @ newline @ scam_json @ newline @ ''```'' @ []))
                   [])) ''click here'')
     = (True, ''CONTENT_SCAM'', ''phishing link'', None)"
    by (simp add: cw)
  ultimately show ?thesis using j w by simp
qed

section \<open>The fallback after a failed decoding\<close>



















end
